theory Spec2Isabelle
  imports Main "HOL-Library.Word"
begin

unbundle bit_operations_syntax

section \<open>The SGP30 driver (sgp30.py)\<close>

text \<open>
  The driver is read with the semantics of Python 3: integers are unbounded (\<open>int\<close>),
  iterating over a \<open>bytes\<close> or \<open>bytearray\<close> object yields integers in \<open>0..255\<close>,
  \<open>/\<close> is true division, and \<open>assert\<close> statements are active (the interpreter runs
  without \<open>-O\<close>).
  A \<open>bytes\<close>/\<open>bytearray\<close> object is a list of 8-bit words; an exception is a value
  of type \<open>error\<close>, returned as \<open>Inl\<close>.
\<close>

type_synonym byte = "8 word"

datatype error =
    AssertionError string
  | StructError
  | ValueError
  | TypeError
  | KeyError
  | IOError

subsection \<open>Checksum: \<open>SGP30._crc\<close>\<close>

definition SGP30_CRC_INIT :: int where
  "SGP30_CRC_INIT = 0xff"

definition SGP30_CRC_POLYNOMIAL :: int where
  "SGP30_CRC_POLYNOMIAL = 0x31"

text \<open>The body of the inner loop: one shift, with the polynomial XORed in when bit 7 is set.\<close>

definition crc_shift :: "int \<Rightarrow> int" where
  "crc_shift c =
     (if c AND 0x80 \<noteq> 0 then push_bit 1 c XOR SGP30_CRC_POLYNOMIAL else push_bit 1 c)"

text \<open>\<open>for _ in range(8)\<close>.\<close>

fun crc_bits :: "nat \<Rightarrow> int \<Rightarrow> int" where
  "crc_bits 0 c = c"
| "crc_bits (Suc n) c = crc_bits n (crc_shift c)"

text \<open>\<open>for byte in data\<close>: the byte is XORed in, then the eight shifts run.\<close>

fun crc_bytes :: "int \<Rightarrow> int list \<Rightarrow> int" where
  "crc_bytes c [] = c"
| "crc_bytes c (b # bs) = crc_bytes (crc_bits 8 (c XOR b)) bs"

definition crc :: "int list \<Rightarrow> int" where
  "crc data = crc_bytes SGP30_CRC_INIT data AND 0xFF"

text \<open>
  The checksum as the specification words it, on Python integers: the accumulator is
  masked to 8 bits after every shift and returned as it is.
\<close>

definition spec_checksum_shift :: "int \<Rightarrow> int" where
  "spec_checksum_shift c =
     (if c AND 0x80 \<noteq> 0 then (push_bit 1 c XOR 0x31) AND 0xFF else push_bit 1 c AND 0xFF)"

fun spec_checksum_bits :: "nat \<Rightarrow> int \<Rightarrow> int" where
  "spec_checksum_bits 0 c = c"
| "spec_checksum_bits (Suc n) c = spec_checksum_bits n (spec_checksum_shift c)"

fun spec_checksum_bytes :: "int \<Rightarrow> int list \<Rightarrow> int" where
  "spec_checksum_bytes c [] = c"
| "spec_checksum_bytes c (b # bs) = spec_checksum_bytes (spec_checksum_bits 8 (c XOR b)) bs"

definition spec_checksum :: "int list \<Rightarrow> int" where
  "spec_checksum data = spec_checksum_bytes 0xFF data"

text \<open>
  The same CRC-8 on an 8-bit register: polynomial \<open>0x31\<close>, initial value \<open>0xFF\<close>, no
  reflection, no final XOR. The shift drops the bit that leaves the register.
\<close>

definition crc8_shift :: "byte \<Rightarrow> byte" where
  "crc8_shift c = (if bit c 7 then push_bit 1 c XOR 0x31 else push_bit 1 c)"

fun crc8_bits :: "nat \<Rightarrow> byte \<Rightarrow> byte" where
  "crc8_bits 0 c = c"
| "crc8_bits (Suc n) c = crc8_bits n (crc8_shift c)"

fun crc8_bytes :: "byte \<Rightarrow> byte list \<Rightarrow> byte" where
  "crc8_bytes c [] = c"
| "crc8_bytes c (b # bs) = crc8_bytes (crc8_bits 8 (c XOR b)) bs"

definition crc8 :: "byte list \<Rightarrow> byte" where
  "crc8 data = crc8_bytes 0xFF data"

subsection \<open>Word codec: \<open>struct\<close>, \<open>_read_checksummed_word(s)\<close>, \<open>_bytes_for_checksummed_words\<close>\<close>

text \<open>
  \<open>struct.pack('>H', word)\<close>: two bytes, big-endian; \<open>struct.error\<close> when the
  integer is not in \<open>0..65535\<close>.
\<close>

definition pack_H :: "int \<Rightarrow> error + byte list" where
  "pack_H word =
     (if 0 \<le> word \<and> word \<le> 0xFFFF
      then Inr [word_of_int (word div 256), word_of_int (word mod 256)]
      else Inl StructError)"

text \<open>
  \<open>struct.unpack_from('>HB', data, offset)\<close> for an offset that is not negative (the
  driver only passes \<open>3 * i\<close>): \<open>struct.error\<close> when fewer than three bytes are left.
\<close>

definition unpack_from_HB :: "byte list \<Rightarrow> nat \<Rightarrow> error + (int \<times> int)" where
  "unpack_from_HB data offset =
     (if length data < offset + 3 then Inl StructError
      else Inr (uint (data ! offset) * 256 + uint (data ! (offset + 1)),
                uint (data ! (offset + 2))))"

definition read_checksummed_word :: "byte list \<Rightarrow> nat \<Rightarrow> error + int" where
  "read_checksummed_word data offset =
     (let word_bytes = take 2 (drop offset data) in
      case unpack_from_HB data offset of
        Inl e \<Rightarrow> Inl e
      | Inr (word, checksum) \<Rightarrow>
          if checksum = crc (map uint word_bytes) then Inr word
          else Inl (AssertionError ''Bad checksum!''))"

text \<open>The loop \<open>for i in range(count)\<close>, with \<open>res\<close> as the accumulator.\<close>

fun read_words_loop :: "byte list \<Rightarrow> nat list \<Rightarrow> int list \<Rightarrow> error + int list" where
  "read_words_loop data [] res = Inr res"
| "read_words_loop data (i # is) res =
     (case read_checksummed_word data ((2 + 1) * i) of
        Inl e \<Rightarrow> Inl e
      | Inr word \<Rightarrow> read_words_loop data is (res @ [word]))"

text \<open>\<open>range(count)\<close> of a Python integer is empty when the count is negative.\<close>

definition read_checksummed_words :: "byte list \<Rightarrow> int \<Rightarrow> error + int list" where
  "read_checksummed_words data count = read_words_loop data [0 ..< nat count] []"

text \<open>\<open>bytearray.append(x)\<close>: \<open>ValueError\<close> unless \<open>x\<close> is in \<open>range(256)\<close>.\<close>

definition bytearray_append :: "byte list \<Rightarrow> int \<Rightarrow> error + byte list" where
  "bytearray_append res x =
     (if 0 \<le> x \<and> x < 256 then Inr (res @ [word_of_int x]) else Inl ValueError)"

text \<open>
  The loop \<open>for word in words\<close>; \<open>byte_offset\<close> is written and never read, so it is
  left out.
\<close>

fun bytes_loop :: "int list \<Rightarrow> byte list \<Rightarrow> error + byte list" where
  "bytes_loop [] res = Inr res"
| "bytes_loop (word # words) res =
     (case pack_H word of
        Inl e \<Rightarrow> Inl e
      | Inr word_bytes \<Rightarrow>
          (case bytearray_append (res @ word_bytes) (crc (map uint word_bytes)) of
             Inl e \<Rightarrow> Inl e
           | Inr res' \<Rightarrow> bytes_loop words res'))"

definition bytes_for_checksummed_words :: "int list \<Rightarrow> error + byte list" where
  "bytes_for_checksummed_words words = bytes_loop words []"

text \<open>
  Auxiliary, used in the proofs only: the three bytes on the wire for one word in
  \<open>0..65535\<close>.
\<close>

definition wire_triplet :: "int \<Rightarrow> byte list" where
  "wire_triplet w =
     [word_of_int (w div 256), word_of_int (w mod 256),
      word_of_int (crc [w div 256, w mod 256])]"

text \<open>
  Auxiliary, used to state the claims about decoding: the checksum byte stored in
  triplet \<open>i\<close> of a buffer, and the checksum the driver recomputes from the two data
  bytes of that triplet.
\<close>

definition stored_checksum :: "byte list \<Rightarrow> nat \<Rightarrow> int" where
  "stored_checksum data i = uint (data ! (3 * i + 2))"

definition recomputed_checksum :: "byte list \<Rightarrow> nat \<Rightarrow> int" where
  "recomputed_checksum data i = crc [uint (data ! (3 * i)), uint (data ! (3 * i + 1))]"

subsection \<open>The command table \<open>_SGP30_CMDS\<close>\<close>

text \<open>
  The named tuple \<open>SGP30Command\<close>; both lengths are counts of bytes on the wire,
  three for each word.
\<close>

datatype SGP30Command = SGP30Command
  (opcode_bytes: "int list")
  (required_feature_set: "int option")
  (parameter_length: int)
  (response_length: int)
  (response_time_ms: int)

definition SGP30_CMDS :: "(string \<times> SGP30Command) list" where
  "SGP30_CMDS =
     [(''get_serial_number'', SGP30Command [0x36, 0x82] None 0 9 1),
      (''get_feature_set_version'', SGP30Command [0x20, 0x2f] None 0 3 2),
      (''init_air_quality'', SGP30Command [0x20, 0x03] (Some 0x20) 0 0 10),
      (''measure_air_quality'', SGP30Command [0x20, 0x08] (Some 0x20) 0 6 12),
      (''get_baseline'', SGP30Command [0x20, 0x15] (Some 0x20) 0 6 10),
      (''set_baseline'', SGP30Command [0x20, 0x1e] (Some 0x20) 6 0 10),
      (''set_humidity'', SGP30Command [0x20, 0x61] (Some 0x20) 3 0 10),
      (''measure_raw_signals'', SGP30Command [0x20, 0x50] (Some 0x20) 0 6 25)]"

text \<open>\<open>_SGP30_CMDS[cmd_name]\<close>: \<open>KeyError\<close> for a name that is not a key.\<close>

definition lookup_cmd :: "string \<Rightarrow> error + SGP30Command" where
  "lookup_cmd cmd_name =
     (case map_of SGP30_CMDS cmd_name of None \<Rightarrow> Inl KeyError | Some cmd \<Rightarrow> Inr cmd)"

definition SGP30_FEATURE_SET_BITMASK :: int where
  "SGP30_FEATURE_SET_BITMASK = 0xE0"

subsection \<open>\<open>AirQuality\<close>\<close>

datatype AirQuality = AirQuality (co2_ppm: int) (voc_ppb: int)

definition is_probably_valid :: "AirQuality \<Rightarrow> bool" where
  "is_probably_valid self = (co2_ppm self \<noteq> 400 \<or> voc_ppb self \<noteq> 0)"

subsection \<open>The bus\<close>

text \<open>
  The driver talks to the device through an \<open>smbus.SMBus\<close> object, which is not part
  of the repository. It is modelled as a recording stand-in: the bus is open on a bus
  number or closed, it logs every block transfer, and block reads are answered from a
  queue of replies. A transfer on a closed bus, or a read with no reply left, raises
  \<open>IOError\<close>. No theorem below depends on when the stand-in raises.
\<close>

datatype bus_call =
    Write_block int int "int list"
  | Read_block int int int

record SMBus =
  fd :: "int option"
  calls :: "bus_call list"
  replies :: "int list list"

definition write_i2c_block_data ::
  "int \<Rightarrow> int \<Rightarrow> int list \<Rightarrow> SMBus \<Rightarrow> (error + unit) \<times> SMBus" where
  "write_i2c_block_data addr cmd vals bus =
     (if fd bus = None then (Inl IOError, bus)
      else (Inr (), bus\<lparr>calls := calls bus @ [Write_block addr cmd vals]\<rparr>))"

definition read_i2c_block_data ::
  "int \<Rightarrow> int \<Rightarrow> int \<Rightarrow> SMBus \<Rightarrow> (error + int list) \<times> SMBus" where
  "read_i2c_block_data addr cmd len bus =
     (if fd bus = None then (Inl IOError, bus)
      else (case replies bus of
              [] \<Rightarrow> (Inl IOError, bus)
            | r # rs \<Rightarrow>
                (Inr r, bus\<lparr>calls := calls bus @ [Read_block addr cmd len], replies := rs\<rparr>)))"

text \<open>\<open>bytearray(values)\<close>: \<open>ValueError\<close> unless every value is in \<open>range(256)\<close>.\<close>

definition bytearray :: "int list \<Rightarrow> error + byte list" where
  "bytearray vals =
     (if list_all (\<lambda>v. 0 \<le> v \<and> v < 256) vals then Inr (map word_of_int vals)
      else Inl ValueError)"

subsection \<open>The class \<open>SGP30\<close>\<close>

text \<open>
  The fields of an \<open>SGP30\<close> object. Its bus object is passed and returned beside it;
  the lock \<open>__bus_lock\<close> and the call of \<open>sleep\<close> have no effect on a single thread of
  control beyond the passing of time and are left out.
\<close>

record SGP30 =
  i2c_bus_number :: int
  i2c_address :: int
  raw_feature_set :: "int option"
  chip_version :: "int option"
  serial_number :: "int list option"

text \<open>
  \<open>__init__\<close>, with its defaults \<open>i2c_bus_number=1, i2c_address=0x58\<close> left to the
  caller. \<open>SMBus()\<close> makes a bus object that is not open; \<open>bus0\<close> is the stand-in it
  is made from.
\<close>

definition SGP30_init :: "int \<Rightarrow> int \<Rightarrow> SMBus \<Rightarrow> SGP30 \<times> SMBus" where
  "SGP30_init bus_number address bus0 =
     (\<lparr>i2c_bus_number = bus_number, i2c_address = address, raw_feature_set = None,
       chip_version = None, serial_number = None\<rparr>,
      bus0\<lparr>fd := None\<rparr>)"

text \<open>\<open>None == n\<close> is false for every integer \<open>n\<close>.\<close>

definition has_feature_set :: "SGP30 \<Rightarrow> int option \<Rightarrow> bool" where
  "has_feature_set self required =
     (case required of
        None \<Rightarrow> True
      | Some r \<Rightarrow> chip_version self = Some (r AND SGP30_FEATURE_SET_BITMASK))"

definition read_bytes :: "SGP30 \<Rightarrow> int \<Rightarrow> SMBus \<Rightarrow> (error + byte list) \<times> SMBus" where
  "read_bytes self len bus =
     (case read_i2c_block_data (i2c_address self) 0 len bus of
        (Inl e, bus') \<Rightarrow> (Inl e, bus')
      | (Inr vals, bus') \<Rightarrow> (bytearray vals, bus'))"

definition write_bytes :: "SGP30 \<Rightarrow> int list \<Rightarrow> SMBus \<Rightarrow> (error + unit) \<times> SMBus" where
  "write_bytes self raw_bytes bus =
     (case raw_bytes of
        [] \<Rightarrow> (Inl (AssertionError []), bus)
      | cmd_byte # arg_bytes \<Rightarrow> write_i2c_block_data (i2c_address self) cmd_byte arg_bytes bus)"

text \<open>
  \<open>_run_command(cmd, param_bytes=None)\<close>. The first component of the result is the
  exception raised or the value returned (\<open>None\<close> or the bytes read); the second is the
  bus afterwards. \<open>len(None)\<close> raises \<open>TypeError\<close>.
\<close>

definition bytes_to_write :: "SGP30Command \<Rightarrow> byte list option \<Rightarrow> error + int list" where
  "bytes_to_write cmd param_bytes =
     (if parameter_length cmd > 0 then
        (case param_bytes of
           None \<Rightarrow> Inl TypeError
         | Some pb \<Rightarrow>
             if int (length pb) = parameter_length cmd
             then Inr (opcode_bytes cmd @ map uint pb)
             else Inl (AssertionError ''Invalid number of parameter bytes for command''))
      else Inr (opcode_bytes cmd))"

definition run_command ::
  "SGP30 \<Rightarrow> SGP30Command \<Rightarrow> byte list option \<Rightarrow> SMBus \<Rightarrow>
   (error + byte list option) \<times> SMBus" where
  "run_command self cmd param_bytes bus =
     (if \<not> has_feature_set self (required_feature_set cmd)
      then (Inl (AssertionError ''Unsupported chip version for this command''), bus)
      else
        (case bytes_to_write cmd param_bytes of
           Inl e \<Rightarrow> (Inl e, bus)
         | Inr raw_bytes \<Rightarrow>
             (case write_bytes self raw_bytes bus of
                (Inl e, bus') \<Rightarrow> (Inl e, bus')
              | (Inr u, bus') \<Rightarrow>
                  if response_length cmd > 0 then
                    (case read_bytes self (response_length cmd) bus' of
                       (Inl e, bus'') \<Rightarrow> (Inl e, bus'')
                     | (Inr bs, bus'') \<Rightarrow> (Inr (Some bs), bus''))
                  else (Inr None, bus'))))"

text \<open>
  \<open>_run_word_getter\<close>. In Python 3 \<open>cmd.response_length / 3\<close> is a \<open>float\<close>, and
  \<open>range(count)\<close> in \<open>_read_checksummed_words\<close> raises \<open>TypeError\<close> for a \<open>float\<close>
  before any byte of the response is looked at; so a getter whose bus transaction
  went through ends in \<open>TypeError\<close>.
\<close>

definition run_word_getter :: "SGP30 \<Rightarrow> string \<Rightarrow> SMBus \<Rightarrow> (error + int list) \<times> SMBus" where
  "run_word_getter self cmd_name bus =
     (case lookup_cmd cmd_name of
        Inl e \<Rightarrow> (Inl e, bus)
      | Inr cmd \<Rightarrow>
          if parameter_length cmd \<noteq> 0
          then (Inl (AssertionError
                  ''This method only understands commands that take no parameters''), bus)
          else if response_length cmd mod 3 \<noteq> 0
          then (Inl (AssertionError
                  ''This method only understands commands whose response is a set of (2-byte word + 1-byte checksum) pairs (i.e., the number of response bytes must be divisible by three)''), bus)
          else
            (case run_command self cmd None bus of
               (Inl e, bus') \<Rightarrow> (Inl e, bus')
             | (Inr raw_bytes, bus') \<Rightarrow> (Inl TypeError, bus')))"

definition run_word_setter ::
  "SGP30 \<Rightarrow> string \<Rightarrow> int list \<Rightarrow> SMBus \<Rightarrow> (error + unit) \<times> SMBus" where
  "run_word_setter self cmd_name words bus =
     (case lookup_cmd cmd_name of
        Inl e \<Rightarrow> (Inl e, bus)
      | Inr cmd \<Rightarrow>
          if response_length cmd \<noteq> 0
          then (Inl (AssertionError
                  ''This method only understands commands that have no response''), bus)
          else if \<not> parameter_length cmd > 0
          then (Inl (AssertionError
                  ''This method only understands commands that take parameters''), bus)
          else if parameter_length cmd mod 3 \<noteq> 0
          then (Inl (AssertionError
                  ''This method only understands commands whose parameter is a set of (2-byte word + 1-byte checksum) pairs (i.e., the number of parameter bytes must be divisible by three)''), bus)
          else
            (case bytes_for_checksummed_words words of
               Inl e \<Rightarrow> (Inl e, bus)
             | Inr param_bytes \<Rightarrow>
                 (case run_command self cmd (Some param_bytes) bus of
                    (Inl e, bus') \<Rightarrow> (Inl e, bus')
                  | (Inr r, bus') \<Rightarrow> (Inr (), bus'))))"

text \<open>
  The measurement methods. \<open>AirQuality(*words)\<close> raises \<open>TypeError\<close> unless there
  are exactly two words.
\<close>

definition AirQuality_of_words :: "int list \<Rightarrow> error + AirQuality" where
  "AirQuality_of_words ws = (case ws of [a, b] \<Rightarrow> Inr (AirQuality a b) | _ \<Rightarrow> Inl TypeError)"

definition measure_air_quality :: "SGP30 \<Rightarrow> SMBus \<Rightarrow> (error + AirQuality) \<times> SMBus" where
  "measure_air_quality self bus =
     (case run_word_getter self ''measure_air_quality'' bus of
        (Inl e, bus') \<Rightarrow> (Inl e, bus')
      | (Inr ws, bus') \<Rightarrow> (AirQuality_of_words ws, bus'))"

definition get_baseline :: "SGP30 \<Rightarrow> SMBus \<Rightarrow> (error + AirQuality) \<times> SMBus" where
  "get_baseline self bus =
     (case run_word_getter self ''get_baseline'' bus of
        (Inl e, bus') \<Rightarrow> (Inl e, bus')
      | (Inr ws, bus') \<Rightarrow> (AirQuality_of_words ws, bus'))"

definition set_baseline :: "SGP30 \<Rightarrow> int \<Rightarrow> int \<Rightarrow> SMBus \<Rightarrow> (error + unit) \<times> SMBus" where
  "set_baseline self co2_baseline voc_baseline bus =
     run_word_setter self ''set_baseline'' [co2_baseline, voc_baseline] bus"

definition set_humidity :: "SGP30 \<Rightarrow> int \<Rightarrow> SMBus \<Rightarrow> (error + unit) \<times> SMBus" where
  "set_humidity self humidity bus = run_word_setter self ''set_humidity'' [humidity] bus"

definition measure_raw_signals :: "SGP30 \<Rightarrow> SMBus \<Rightarrow> (error + int list) \<times> SMBus" where
  "measure_raw_signals self bus = run_word_getter self ''measure_raw_signals'' bus"

section \<open>Bit-level facts about the checksum\<close>

lemma and_0x80_iff_bit7: "(c AND (0x80::int) \<noteq> 0) = bit c 7"
proof -
  have "(0x80::int) = 2 ^ 7" by simp
  then show ?thesis by (simp only: and_exp_eq_0_iff_not_bit) simp
qed

lemma and_0xFF_eq_take_bit: "x AND (0xFF::int) = take_bit 8 x"
proof -
  have "(0xFF::int) = mask 8" by (simp add: mask_eq_exp_minus_1)
  then show ?thesis by (simp only: take_bit_eq_mask)
qed

lemma bit7_take_bit8: "bit (take_bit 8 c) 7 = bit (c::int) 7"
  by (simp add: bit_take_bit_iff)

lemma take_bit8_push_bit1:
  "take_bit 8 (push_bit 1 (take_bit 8 c)) = take_bit 8 (push_bit 1 (c::int))"
  by (simp add: take_bit_eq_mod mod_mult_left_eq)

text \<open>One shift of the driver, seen through its low eight bits, is one shift of the
  specification on the low eight bits.\<close>

lemma take_bit8_crc_shift: "take_bit 8 (crc_shift c) = spec_checksum_shift (take_bit 8 c)"
proof -
  have "take_bit 8 (push_bit 1 c XOR 0x31) = take_bit 8 (push_bit 1 (take_bit 8 c) XOR 0x31)"
    by (simp only: take_bit_xor take_bit8_push_bit1)
  then show ?thesis
    unfolding crc_shift_def spec_checksum_shift_def and_0x80_iff_bit7 and_0xFF_eq_take_bit
      bit7_take_bit8 SGP30_CRC_POLYNOMIAL_def
    by (cases "bit c 7") (simp_all only: take_bit8_push_bit1 if_True if_False)
qed

lemma spec_checksum_shift_eq: "spec_checksum_shift c = take_bit 8 (crc_shift c)"
  unfolding crc_shift_def spec_checksum_shift_def and_0xFF_eq_take_bit SGP30_CRC_POLYNOMIAL_def
  by (cases "c AND 0x80 = 0") simp_all

lemma spec_checksum_shift_take_bit8: "spec_checksum_shift (take_bit 8 c) = spec_checksum_shift c"
proof -
  have "spec_checksum_shift (take_bit 8 c) = take_bit 8 (crc_shift c)"
    by (simp only: take_bit8_crc_shift)
  then show ?thesis by (simp only: spec_checksum_shift_eq)
qed

lemma take_bit8_spec_checksum_shift: "take_bit 8 (spec_checksum_shift c) = spec_checksum_shift c"
  by (simp add: spec_checksum_shift_eq)

lemma take_bit8_crc_bits: "take_bit 8 (crc_bits n c) = spec_checksum_bits n (take_bit 8 c)"
  by (induction n arbitrary: c) (simp_all add: take_bit8_crc_shift)

lemma spec_checksum_bits_take_bit8:
  "spec_checksum_bits (Suc n) (take_bit 8 c) = spec_checksum_bits (Suc n) c"
  by (simp add: spec_checksum_shift_take_bit8)

lemma take_bit8_spec_checksum_bits:
  "take_bit 8 c = c \<Longrightarrow> take_bit 8 (spec_checksum_bits n c) = spec_checksum_bits n c"
  by (induction n arbitrary: c) (simp_all add: take_bit8_spec_checksum_shift)

lemma take_bit8_spec_checksum_bits8:
  "take_bit 8 (spec_checksum_bits 8 c) = spec_checksum_bits 8 c"
proof -
  have "spec_checksum_bits 8 c = spec_checksum_bits 7 (spec_checksum_shift c)"
    by (simp add: eval_nat_numeral)
  then show ?thesis
    by (simp only: take_bit8_spec_checksum_bits [OF take_bit8_spec_checksum_shift])
qed

lemma crc_bits8_low:
  assumes "take_bit 8 c = take_bit 8 c'"
  shows "take_bit 8 (crc_bits 8 (c XOR b)) = spec_checksum_bits 8 (c' XOR b)"
proof -
  have "take_bit 8 (c XOR b) = take_bit 8 (c' XOR b)"
    using assms by (simp only: take_bit_xor)
  then have "take_bit 8 (crc_bits 8 (c XOR b)) = spec_checksum_bits 8 (take_bit 8 (c' XOR b))"
    by (simp only: take_bit8_crc_bits)
  also have "\<dots> = spec_checksum_bits 8 (c' XOR b)"
    using spec_checksum_bits_take_bit8 [of 7 "c' XOR b"] by (simp add: eval_nat_numeral)
  finally show ?thesis .
qed

lemma crc_bytes_low:
  "take_bit 8 c = take_bit 8 c' \<Longrightarrow> take_bit 8 c' = c' \<Longrightarrow>
   take_bit 8 (crc_bytes c bs) = spec_checksum_bytes c' bs"
proof (induction bs arbitrary: c c')
  case Nil
  then show ?case by simp
next
  case (Cons b bs)
  have "take_bit 8 (crc_bits 8 (c XOR b)) = take_bit 8 (spec_checksum_bits 8 (c' XOR b))"
    by (simp only: crc_bits8_low [OF Cons.prems(1)] take_bit8_spec_checksum_bits8)
  then show ?case
    using Cons.IH [of "crc_bits 8 (c XOR b)" "spec_checksum_bits 8 (c' XOR b)"]
    by (simp add: take_bit8_spec_checksum_bits8)
qed

lemma crc_eq_spec_checksum: "crc data = spec_checksum data"
proof -
  have "take_bit 8 (0xFF::int) = 0xFF" by simp
  then show ?thesis
    unfolding crc_def spec_checksum_def and_0xFF_eq_take_bit SGP30_CRC_INIT_def
    by (simp only: crc_bytes_low [of "0xFF" "0xFF"])
qed

lemma crc_shift_low_bits: "crc_shift c AND 0xFF = crc_shift (c AND 0xFF) AND 0xFF"
  unfolding and_0xFF_eq_take_bit
  by (simp add: take_bit8_crc_shift)

text \<open>The same on the 8-bit register.\<close>

lemma word_of_int_xor: "(word_of_int (a XOR b) :: byte) = word_of_int a XOR word_of_int b"
  by (simp add: bit_eq_iff bit_simps bit_word_of_int_iff)

lemma word_of_int_crc_shift: "(word_of_int (crc_shift c) :: byte) = crc8_shift (word_of_int c)"
proof -
  have b: "bit (word_of_int c :: byte) 7 = bit c 7"
    by (simp add: bit_word_of_int_iff)
  have p: "(word_of_int (push_bit 1 c) :: byte) = push_bit 1 (word_of_int c)"
    by (simp add: push_bit_eq_mult)
  have x: "(word_of_int (push_bit 1 c XOR 0x31) :: byte) = push_bit 1 (word_of_int c) XOR 0x31"
    by (simp only: word_of_int_xor p word_of_int_numeral)
  show ?thesis
    unfolding crc_shift_def crc8_shift_def and_0x80_iff_bit7 SGP30_CRC_POLYNOMIAL_def b
    by (cases "bit c 7") (simp_all only: p x if_True if_False)
qed

lemma word_of_int_crc_bits: "(word_of_int (crc_bits n c) :: byte) = crc8_bits n (word_of_int c)"
  by (induction n arbitrary: c) (simp_all add: word_of_int_crc_shift)

lemma word_of_int_crc_bytes:
  "(word_of_int (crc_bytes c (map uint bs)) :: byte) = crc8_bytes (word_of_int c) bs"
  by (induction bs arbitrary: c) (simp_all add: word_of_int_crc_bits word_of_int_xor)

lemma crc_eq_crc8: "crc (map uint bs) = uint (crc8 bs)"
proof -
  have "uint (crc8 bs) = uint (word_of_int (crc_bytes 0xFF (map uint bs)) :: byte)"
    unfolding crc8_def by (simp only: word_of_int_crc_bytes word_of_int_numeral)
  also have "\<dots> = take_bit 8 (crc_bytes 0xFF (map uint bs))"
    by (simp add: uint_word_of_int_eq)
  finally show ?thesis
    unfolding crc_def and_0xFF_eq_take_bit SGP30_CRC_INIT_def by simp
qed

lemma crc_range: "0 \<le> crc data \<and> crc data < 256"
  unfolding crc_def and_0xFF_eq_take_bit
  using take_bit_int_less_exp [of 8 "crc_bytes SGP30_CRC_INIT data"] by simp

lemma crc_BEEF: "crc [0xBE, 0xEF] = 0x92"
  by (simp add: crc_def SGP30_CRC_INIT_def SGP30_CRC_POLYNOMIAL_def crc_shift_def
      eval_nat_numeral)


lemma feature_set_bitmask_bits: "bit SGP30_FEATURE_SET_BITMASK n = (5 \<le> n \<and> n \<le> 7)"
proof -
  have "SGP30_FEATURE_SET_BITMASK = push_bit 5 (mask 3)"
    by (simp add: SGP30_FEATURE_SET_BITMASK_def mask_eq_exp_minus_1)
  then have "bit SGP30_FEATURE_SET_BITMASK n = bit (push_bit 5 (mask 3 :: int)) n" by simp
  also have "\<dots> = (5 \<le> n \<and> n \<le> 7)" by (auto simp add: bit_simps)
  finally show ?thesis .
qed

section \<open>The word codec\<close>

lemma uint_hi: "0 \<le> w \<Longrightarrow> w \<le> 0xFFFF \<Longrightarrow> uint (word_of_int (w div 256) :: byte) = w div 256"
  by (simp add: uint_word_of_int_eq take_bit_int_eq_self)

lemma uint_lo: "uint (word_of_int (w mod 256) :: byte) = w mod 256"
  by (simp add: uint_word_of_int_eq take_bit_eq_mod)

lemma uint_crc: "uint (word_of_int (crc data) :: byte) = crc data"
  using crc_range [of data] by (simp add: uint_word_of_int_eq take_bit_int_eq_self)

lemma pack_H_in_range:
  "0 \<le> w \<Longrightarrow> w \<le> 0xFFFF \<Longrightarrow>
   pack_H w = Inr [word_of_int (w div 256), word_of_int (w mod 256)]"
  by (simp add: pack_H_def)

lemma bytes_loop_in_range:
  "\<forall>w\<in>set ws. 0 \<le> w \<and> w \<le> 0xFFFF \<Longrightarrow>
   bytes_loop ws res = Inr (res @ concat (map wire_triplet ws))"
proof (induction ws arbitrary: res)
  case Nil
  then show ?case by simp
next
  case (Cons w ws)
  then have w: "0 \<le> w" "w \<le> 0xFFFF" by simp_all
  have "bytes_loop (w # ws) res = bytes_loop ws (res @ wire_triplet w)"
    using crc_range [of "[w div 256, w mod 256]"]
    by (simp add: pack_H_in_range [OF w] bytearray_append_def uint_hi [OF w] uint_lo wire_triplet_def)
  then show ?case using Cons by simp
qed

lemma bytes_loop_out_of_range:
  "\<exists>w\<in>set ws. \<not> (0 \<le> w \<and> w \<le> 0xFFFF) \<Longrightarrow> bytes_loop ws res = Inl StructError"
proof (induction ws arbitrary: res)
  case Nil
  then show ?case by simp
next
  case (Cons w ws)
  show ?case
  proof (cases "0 \<le> w \<and> w \<le> 0xFFFF")
    case True
    then have w: "0 \<le> w" "w \<le> 0xFFFF" by simp_all
    have "bytes_loop (w # ws) res = bytes_loop ws (res @ wire_triplet w)"
      using crc_range [of "[w div 256, w mod 256]"]
      by (simp add: pack_H_in_range [OF w] bytearray_append_def uint_hi [OF w] uint_lo wire_triplet_def)
    moreover have "\<exists>w\<in>set ws. \<not> (0 \<le> w \<and> w \<le> 0xFFFF)" using Cons.prems True by auto
    ultimately show ?thesis using Cons.IH by simp
  next
    case False
    then show ?thesis by (auto simp add: pack_H_def)
  qed
qed

lemma length_wire_triplet: "length (wire_triplet w) = 3"
  by (simp add: wire_triplet_def)

lemma length_concat_triplets: "length (concat (map wire_triplet ws)) = 3 * length ws"
  by (induction ws) (simp_all add: length_wire_triplet)

lemma read_word_triplet:
  assumes "0 \<le> w" "w \<le> 0xFFFF" "length pre = n"
  shows "read_checksummed_word (pre @ wire_triplet w @ post) n = Inr w"
proof -
  have "unpack_from_HB (pre @ wire_triplet w @ post) n = Inr (w, crc [w div 256, w mod 256])"
    using assms
    by (simp add: unpack_from_HB_def wire_triplet_def nth_append uint_hi uint_lo uint_crc)
  moreover have "take 2 (drop n (pre @ wire_triplet w @ post)) =
      [word_of_int (w div 256), word_of_int (w mod 256)]"
    using assms by (simp add: wire_triplet_def)
  ultimately show ?thesis
    using assms by (simp add: read_checksummed_word_def uint_hi uint_lo)
qed


lemma nth_concat_triplets:
  "j < length ws \<Longrightarrow> r < 3 \<Longrightarrow>
   concat (map wire_triplet ws) ! (3 * j + r) = wire_triplet (ws ! j) ! r"
proof (induction ws arbitrary: j)
  case Nil
  then show ?case by simp
next
  case (Cons w ws)
  show ?case
  proof (cases j)
    case 0
    then show ?thesis using Cons.prems by (simp add: nth_append length_wire_triplet)
  next
    case (Suc k)
    then have "3 * j + r = 3 + (3 * k + r)" by simp
    then show ?thesis using Cons Suc by (simp add: nth_append length_wire_triplet)
  qed
qed

lemma read_word_concat:
  assumes "\<forall>w\<in>set ws. 0 \<le> w \<and> w \<le> 0xFFFF" "i < length ws"
  shows "read_checksummed_word (concat (map wire_triplet ws) @ rest) (3 * i) = Inr (ws ! i)"
proof -
  have ws: "ws = take i ws @ (ws ! i) # drop (Suc i) ws"
    using assms(2) by (simp add: id_take_nth_drop)
  have w: "0 \<le> ws ! i" "ws ! i \<le> 0xFFFF" using assms by simp_all
  have len: "length (concat (map wire_triplet (take i ws))) = 3 * i"
    using assms(2) by (simp add: length_concat_triplets)
  have "concat (map wire_triplet ws) @ rest =
      concat (map wire_triplet (take i ws)) @ wire_triplet (ws ! i) @
        (concat (map wire_triplet (drop (Suc i) ws)) @ rest)"
    by (subst ws) simp
  then show ?thesis using read_word_triplet [OF w len] by simp
qed

lemma read_words_loop_ok:
  "\<forall>i\<in>set is. read_checksummed_word data (3 * i) = Inr (f i) \<Longrightarrow>
   read_words_loop data is res = Inr (res @ map f is)"
  by (induction "is" arbitrary: res) simp_all

lemma read_words_loop_fail:
  "\<forall>j\<in>set pre. \<exists>w. read_checksummed_word data (3 * j) = Inr w \<Longrightarrow>
   read_checksummed_word data (3 * i) = Inl e \<Longrightarrow>
   read_words_loop data (pre @ i # post) res = Inl e"
  by (induction pre arbitrary: res) auto

lemma roundtrip_aux:
  assumes "\<forall>w\<in>set ws. 0 \<le> w \<and> w \<le> 0xFFFF"
  shows "\<exists>bs. bytes_for_checksummed_words ws = Inr bs \<and> length bs = 3 * length ws \<and>
     read_checksummed_words bs (int (length ws)) = Inr ws"
proof -
  let ?bs = "concat (map wire_triplet ws)"
  have enc: "bytes_for_checksummed_words ws = Inr ?bs"
    using bytes_loop_in_range [OF assms, of "[]"] by (simp add: bytes_for_checksummed_words_def)
  have "\<forall>i\<in>set [0..<length ws]. read_checksummed_word ?bs (3 * i) = Inr (ws ! i)"
    using read_word_concat [OF assms, of _ "[]"] by simp
  then have "read_words_loop ?bs [0..<length ws] [] = Inr ([] @ map (\<lambda>i. ws ! i) [0..<length ws])"
    by (rule read_words_loop_ok)
  then have "read_checksummed_words ?bs (int (length ws)) = Inr ws"
    by (simp add: read_checksummed_words_def map_nth)
  then show ?thesis using enc by (simp add: length_concat_triplets)
qed


text \<open>Decoding stops at the first triplet whose checksum does not match.\<close>

lemma take2_drop:
  "n + 3 \<le> length data \<Longrightarrow> take 2 (drop n data) = [data ! n, data ! (n + 1)]"
proof -
  assume a: "n + 3 \<le> length data"
  then have "drop n data = data ! n # drop (Suc n) data" by (simp add: Cons_nth_drop_Suc)
  moreover have "drop (Suc n) data = data ! (Suc n) # drop (Suc (Suc n)) data"
    using a by (simp add: Cons_nth_drop_Suc)
  ultimately show ?thesis by (simp add: numeral_2_eq_2)
qed

lemma read_word_present:
  assumes "3 * i + 3 \<le> length data"
  shows "read_checksummed_word data (3 * i) =
    (if stored_checksum data i = recomputed_checksum data i
     then Inr (uint (data ! (3 * i)) * 256 + uint (data ! (3 * i + 1)))
     else Inl (AssertionError ''Bad checksum!''))"
  using assms take2_drop [of "3 * i" data]
  by (simp add: read_checksummed_word_def unpack_from_HB_def stored_checksum_def
      recomputed_checksum_def)

lemma first_bad_aux:
  assumes "int i < count" "3 * i + 3 \<le> length data"
    "\<forall>j<i. stored_checksum data j = recomputed_checksum data j"
    "stored_checksum data i \<noteq> recomputed_checksum data i"
  shows "read_checksummed_words data count = Inl (AssertionError ''Bad checksum!'')"
proof -
  have i: "i < nat count" using assms(1) by simp
  then have split: "[0..<nat count] = [0..<i] @ i # [Suc i..<nat count]"
    by (metis le0 upt_conv_Cons upt_add_eq_append le_add_diff_inverse less_imp_le_nat)
  have pre: "\<forall>j\<in>set [0..<i]. \<exists>w. read_checksummed_word data (3 * j) = Inr w"
  proof
    fix j assume "j \<in> set [0..<i]"
    then have j: "j < i" by simp
    then have "3 * j + 3 \<le> length data" using assms(2) by simp
    then show "\<exists>w. read_checksummed_word data (3 * j) = Inr w"
      using assms(3) j by (simp add: read_word_present)
  qed
  have bad: "read_checksummed_word data (3 * i) = Inl (AssertionError ''Bad checksum!'')"
    using assms(2,4) by (simp add: read_word_present)
  show ?thesis
    unfolding read_checksummed_words_def split
    using pre bad by (rule read_words_loop_fail)
qed

lemma checksum_take:
  "3 * j + 3 \<le> n \<Longrightarrow> n \<le> length data \<Longrightarrow>
   stored_checksum (take n data @ rest) j = stored_checksum data j \<and>
   recomputed_checksum (take n data @ rest) j = recomputed_checksum data j"
  by (simp add: stored_checksum_def recomputed_checksum_def nth_append)

lemma first_bad_prefix_aux:
  assumes "int i < count" "3 * i + 3 \<le> length data"
    "\<forall>j<i. stored_checksum data j = recomputed_checksum data j"
    "stored_checksum data i \<noteq> recomputed_checksum data i"
  shows "read_checksummed_words (take (3 * i + 3) data @ rest) count =
    Inl (AssertionError ''Bad checksum!'')"
proof (rule first_bad_aux [OF assms(1)])
  show "3 * i + 3 \<le> length (take (3 * i + 3) data @ rest)" using assms(2) by simp
  show "\<forall>j<i. stored_checksum (take (3 * i + 3) data @ rest) j =
      recomputed_checksum (take (3 * i + 3) data @ rest) j"
    using assms(2,3) by (simp add: checksum_take)
  show "stored_checksum (take (3 * i + 3) data @ rest) i \<noteq>
      recomputed_checksum (take (3 * i + 3) data @ rest) i"
    using assms(2,4) by (simp add: checksum_take)
qed

lemma flip_neq: "b < 8 \<Longrightarrow> (x::byte) XOR push_bit b 1 \<noteq> x"
proof
  assume b: "b < 8" and "x XOR push_bit b 1 = x"
  then have "bit (x XOR push_bit b 1) b = bit x b" by simp
  then show False using b by (simp add: bit_simps)
qed

lemma triplet_ok:
  assumes "0 \<le> w" "w \<le> 0xFFFF"
  shows "uint (wire_triplet w ! 2) = crc [uint (wire_triplet w ! 0), uint (wire_triplet w ! 1)]"
  using assms by (simp add: wire_triplet_def uint_hi uint_lo uint_crc)

lemma flip_aux:
  assumes r: "\<forall>w\<in>set ws. 0 \<le> w \<and> w \<le> 0xFFFF" and k: "k < length ws" and b: "b < 8"
    and enc: "bytes_for_checksummed_words ws = Inr bs"
  shows "read_checksummed_words (bs[3 * k + 2 := bs ! (3 * k + 2) XOR push_bit b 1])
      (int (length ws)) = Inl (AssertionError ''Bad checksum!'')"
proof -
  let ?bs = "concat (map wire_triplet ws)"
  let ?d = "?bs[3 * k + 2 := ?bs ! (3 * k + 2) XOR push_bit b 1]"
  have bs: "bs = ?bs"
    using enc bytes_loop_in_range [OF r, of "[]"] by (simp add: bytes_for_checksummed_words_def)
  have len: "length ?bs = 3 * length ws" by (rule length_concat_triplets)
  have ok: "stored_checksum ?bs j = recomputed_checksum ?bs j" if "j < length ws" for j
  proof -
    have w: "0 \<le> ws ! j" "ws ! j \<le> 0xFFFF" using r that by simp_all
    show ?thesis
      unfolding stored_checksum_def recomputed_checksum_def
      using nth_concat_triplets [OF that, of 0] nth_concat_triplets [OF that, of 1]
        nth_concat_triplets [OF that, of 2] triplet_ok [OF w]
      by simp
  qed
  have "read_checksummed_words ?d (int (length ws)) = Inl (AssertionError ''Bad checksum!'')"
  proof (rule first_bad_aux [of k])
    show "int k < int (length ws)" using k by simp
    show "3 * k + 3 \<le> length ?d" using k len by simp
    show "\<forall>j<k. stored_checksum ?d j = recomputed_checksum ?d j"
    proof (intro allI impI)
      fix j assume j: "j < k"
      then have "stored_checksum ?d j = stored_checksum ?bs j"
        "recomputed_checksum ?d j = recomputed_checksum ?bs j"
        by (simp_all add: stored_checksum_def recomputed_checksum_def)
      then show "stored_checksum ?d j = recomputed_checksum ?d j"
        using ok [of j] j k by simp
    qed
    have "recomputed_checksum ?d k = recomputed_checksum ?bs k"
      by (simp add: recomputed_checksum_def)
    moreover have "stored_checksum ?d k = uint (?bs ! (3 * k + 2) XOR push_bit b 1)"
      using k len by (simp add: stored_checksum_def)
    moreover have "uint (?bs ! (3 * k + 2) XOR push_bit b 1) \<noteq> uint (?bs ! (3 * k + 2))"
      using flip_neq [OF b] by (simp only: word_uint_eq_iff [symmetric]) simp
    ultimately show "stored_checksum ?d k \<noteq> recomputed_checksum ?d k"
      using ok [OF k] by (simp add: stored_checksum_def)
  qed
  then show ?thesis by (simp only: bs)
qed


section \<open>The checksum claims\<close>

text \<open>
  C1. The checksum of the driver, \<open>_crc\<close>, is the CRC-8 with polynomial \<open>0x31\<close> and
  initial value \<open>0xFF\<close> on an 8-bit register: for every sequence of bytes its result is
  the value of the register after each byte has been XORed in and shifted eight times,
  with \<open>0x31\<close> XORed in whenever the bit that leaves the register is set. The result is
  reduced to 8 bits, and the checksum of \<open>[0xBE, 0xEF]\<close> is \<open>0x92\<close>.
\<close>

theorem crc_is_crc8:
  "crc (map uint bs) = uint (crc8 bs) \<and> 0 \<le> crc data \<and> crc data < 256 \<and>
   crc [0xBE, 0xEF] = 0x92"
  using crc_eq_crc8 [of bs] crc_range [of data] crc_BEEF by simp

text \<open>
  C10. The driver masks the accumulator to 8 bits once, after the last byte; the
  specification masks it after every shift. For every sequence of integers the two
  give the same checksum, because the low eight bits after a shift depend on the low
  eight bits before it only.
\<close>

theorem crc_mask_once_eq_mask_every_shift:
  "crc data = spec_checksum data \<and> crc_shift c AND 0xFF = crc_shift (c AND 0xFF) AND 0xFF"
  using crc_eq_spec_checksum [of data] crc_shift_low_bits [of c] by simp

section \<open>The codec claims\<close>

text \<open>
  C2. Round trip: for every sequence \<open>ws\<close> of integers in \<open>0..65535\<close>,
  \<open>_bytes_for_checksummed_words\<close> returns a byte sequence of length \<open>3 * len(ws)\<close>, and
  \<open>_read_checksummed_words\<close> of these bytes with count \<open>len(ws)\<close> returns \<open>ws\<close>.
\<close>

theorem roundtrip:
  assumes "\<forall>w\<in>set ws. 0 \<le> w \<and> w \<le> 0xFFFF"
  shows "\<exists>bs. bytes_for_checksummed_words ws = Inr bs \<and> length bs = 3 * length ws \<and>
     read_checksummed_words bs (int (length ws)) = Inr ws"
  using assms by (rule roundtrip_aux)

theorem roundtrip_witness:
  "\<exists>bs. bytes_for_checksummed_words [0xBEEF, 1] = Inr bs \<and> length bs = 6 \<and>
     read_checksummed_words bs 2 = Inr [0xBEEF, 1]"
  using roundtrip [of "[0xBEEF, 1]"] by simp

text \<open>
  C8. \<open>_bytes_for_checksummed_words\<close> fails with \<open>struct.error\<close> (the driver's error
  for an invalid word, raised by \<open>struct.pack\<close>) whenever a value is greater than
  \<open>0xFFFF\<close>, and it returns bytes for every sequence of values in \<open>0..0xFFFF\<close>.
\<close>

theorem invalid_word_rejected:
  "((\<exists>w\<in>set ws. 0xFFFF < w) \<longrightarrow> bytes_for_checksummed_words ws = Inl StructError) \<and>
   ((\<forall>w\<in>set ws. 0 \<le> w \<and> w \<le> 0xFFFF) \<longrightarrow> (\<exists>bs. bytes_for_checksummed_words ws = Inr bs))"
proof (intro conjI impI)
  assume "\<exists>w\<in>set ws. 0xFFFF < w"
  then obtain w where "w \<in> set ws" "0xFFFF < w" by blast
  then have "w \<in> set ws" "\<not> (0 \<le> w \<and> w \<le> 0xFFFF)" by simp_all
  then have "\<exists>w\<in>set ws. \<not> (0 \<le> w \<and> w \<le> 0xFFFF)" by (rule bexI [rotated])
  then show "bytes_for_checksummed_words ws = Inl StructError"
    unfolding bytes_for_checksummed_words_def by (rule bytes_loop_out_of_range)
next
  assume "\<forall>w\<in>set ws. 0 \<le> w \<and> w \<le> 0xFFFF"
  then show "\<exists>bs. bytes_for_checksummed_words ws = Inr bs"
    unfolding bytes_for_checksummed_words_def by (simp add: bytes_loop_in_range)
qed

theorem invalid_word_rejected_witness:
  "bytes_for_checksummed_words [1, 0x10000] = Inl StructError \<and>
   (\<exists>bs. bytes_for_checksummed_words [1, 2] = Inr bs)"
  using invalid_word_rejected [of "[1, 0x10000]"] invalid_word_rejected [of "[1, 2]"] by simp

text \<open>
  C3, as the specification states it, has the decoder fail with an error that
  identifies the index of the bad triplet. The driver raises
  \<open>AssertionError('Bad checksum!')\<close>, which carries no index: a failure at triplet 0 of
  one buffer and a failure at triplet 1 of another are the same error value.
\<close>

theorem checksum_error_carries_no_index:
  "read_checksummed_word [0, 0, 0] 0 = Inl (AssertionError ''Bad checksum!'') \<and>
   read_checksummed_word [0xBE, 0xEF, 0x92, 0, 0, 0] 0 = Inr 0xBEEF \<and>
   read_checksummed_word [0xBE, 0xEF, 0x92, 0, 0, 0] 3 = Inl (AssertionError ''Bad checksum!'') \<and>
   read_checksummed_words [0, 0, 0] 1 = read_checksummed_words [0xBE, 0xEF, 0x92, 0, 0, 0] 2"
  by code_simp

text \<open>
  C3, amended. For every buffer and count, when triplet \<open>i\<close> (with \<open>i < count\<close>) is
  present in the buffer, the checksums of all earlier triplets match and the checksum of
  triplet \<open>i\<close> does not, \<open>_read_checksummed_words\<close> fails with
  \<open>AssertionError('Bad checksum!')\<close>, whatever follows triplet \<open>i\<close> in the buffer: no
  later triplet is decoded. In particular, flipping any one bit of the checksum byte of
  any word of an encoded sequence makes decoding fail with this error.
\<close>

theorem first_bad_checksum_stops_decoding:
  "(int i < count \<and> 3 * i + 3 \<le> length data \<and>
    (\<forall>j<i. stored_checksum data j = recomputed_checksum data j) \<and>
    stored_checksum data i \<noteq> recomputed_checksum data i \<longrightarrow>
      read_checksummed_words data count = Inl (AssertionError ''Bad checksum!'') \<and>
      (\<forall>rest. read_checksummed_words (take (3 * i + 3) data @ rest) count =
         Inl (AssertionError ''Bad checksum!''))) \<and>
   ((\<forall>w\<in>set ws. 0 \<le> w \<and> w \<le> 0xFFFF) \<and> k < length ws \<and> b < 8 \<and>
    bytes_for_checksummed_words ws = Inr bs \<longrightarrow>
      read_checksummed_words (bs[3 * k + 2 := bs ! (3 * k + 2) XOR push_bit b 1])
        (int (length ws)) = Inl (AssertionError ''Bad checksum!''))"
  using first_bad_aux [of i count data] first_bad_prefix_aux [of i count data]
    flip_aux [of ws k b bs]
  by blast

theorem first_bad_checksum_stops_decoding_witness:
  "read_checksummed_words [0xBE, 0xEF, 0x92, 0, 0, 0, 0, 1, 0xB0] 3 =
     Inl (AssertionError ''Bad checksum!'') \<and>
   read_checksummed_words [0xBE, 0xEF, 0x92, 0, 0, 0, 7, 7] 3 =
     Inl (AssertionError ''Bad checksum!'') \<and>
   read_checksummed_words [0xBE, 0xEF, 0x92, 0, 1, 0xB4] 2 =
     Inl (AssertionError ''Bad checksum!'')"
proof -
  let ?d = "[0xBE, 0xEF, 0x92, 0, 0, 0, 0, 1, 0xB0] :: byte list"
  have h1: "int 1 < 3" by simp
  have h2: "3 * 1 + 3 \<le> length ?d" by simp
  have c0: "stored_checksum ?d 0 = recomputed_checksum ?d 0" by code_simp
  have h3: "\<forall>j<(1::nat). stored_checksum ?d j = recomputed_checksum ?d j"
    using c0 by simp
  have h4: "stored_checksum ?d 1 \<noteq> recomputed_checksum ?d 1" by code_simp
  have e: "bytes_for_checksummed_words [0xBEEF, 1] = Inr [0xBE, 0xEF, 0x92, 0, 1, 0xB0]"
    by code_simp
  have r: "\<forall>w\<in>set [0xBEEF, 1 :: int]. 0 \<le> w \<and> w \<le> 0xFFFF" by simp
  have f: "([0xBE, 0xEF, 0x92, 0, 1, 0xB0] :: byte list)[3 * 1 + 2 :=
      [0xBE, 0xEF, 0x92, 0, 1, 0xB0] ! (3 * 1 + 2) XOR push_bit 2 1] =
      [0xBE, 0xEF, 0x92, 0, 1, 0xB4]" by code_simp
  note t = first_bad_checksum_stops_decoding
    [of 1 3 ?d "[0xBEEF, 1]" 1 2 "[0xBE, 0xEF, 0x92, 0, 1, 0xB0]"]
  from t h1 h2 h3 h4 have a: "read_checksummed_words ?d 3 = Inl (AssertionError ''Bad checksum!'')"
    by blast
  from t h1 h2 h3 h4 have "\<forall>rest. read_checksummed_words (take (3 * 1 + 3) ?d @ rest) 3 =
         Inl (AssertionError ''Bad checksum!'')" by blast
  then have "read_checksummed_words (take (3 * 1 + 3) ?d @ [7, 7]) 3 =
         Inl (AssertionError ''Bad checksum!'')" by blast
  then have b: "read_checksummed_words [0xBE, 0xEF, 0x92, 0, 0, 0, 7, 7] 3 =
     Inl (AssertionError ''Bad checksum!'')" by simp
  from t r e have "read_checksummed_words
      (([0xBE, 0xEF, 0x92, 0, 1, 0xB0] :: byte list)[3 * 1 + 2 :=
      [0xBE, 0xEF, 0x92, 0, 1, 0xB0] ! (3 * 1 + 2) XOR push_bit 2 1])
        (int (length [0xBEEF, 1 :: int])) = Inl (AssertionError ''Bad checksum!'')" by simp
  then have c: "read_checksummed_words [0xBE, 0xEF, 0x92, 0, 1, 0xB4] 2 =
     Inl (AssertionError ''Bad checksum!'')" by (simp only: f) simp
  from a b c show ?thesis by simp
qed

section \<open>Commands\<close>

lemma lookup_measure_air_quality:
  "lookup_cmd ''measure_air_quality'' = Inr (SGP30Command [0x20, 0x08] (Some 0x20) 0 6 12)"
  by (simp add: lookup_cmd_def SGP30_CMDS_def)

lemma lookup_get_baseline:
  "lookup_cmd ''get_baseline'' = Inr (SGP30Command [0x20, 0x15] (Some 0x20) 0 6 10)"
  by (simp add: lookup_cmd_def SGP30_CMDS_def)

lemma lookup_set_baseline:
  "lookup_cmd ''set_baseline'' = Inr (SGP30Command [0x20, 0x1e] (Some 0x20) 6 0 10)"
  by (simp add: lookup_cmd_def SGP30_CMDS_def)

lemma lookup_set_humidity:
  "lookup_cmd ''set_humidity'' = Inr (SGP30Command [0x20, 0x61] (Some 0x20) 3 0 10)"
  by (simp add: lookup_cmd_def SGP30_CMDS_def)

lemma lookup_measure_raw_signals:
  "lookup_cmd ''measure_raw_signals'' = Inr (SGP30Command [0x20, 0x50] (Some 0x20) 0 6 25)"
  by (simp add: lookup_cmd_def SGP30_CMDS_def)

lemma setter_wrong_count:
  assumes "lookup_cmd name = Inr cmd" "response_length cmd = 0" "parameter_length cmd > 0"
    "parameter_length cmd mod 3 = 0" "has_feature_set self (required_feature_set cmd)"
    "\<forall>w\<in>set ws. 0 \<le> w \<and> w \<le> 0xFFFF" "3 * int (length ws) \<noteq> parameter_length cmd"
  shows "run_word_setter self name ws bus =
    (Inl (AssertionError ''Invalid number of parameter bytes for command''), bus)"
proof -
  have "bytes_for_checksummed_words ws = Inr (concat (map wire_triplet ws))"
    using bytes_loop_in_range [OF assms(6), of "[]"] by (simp add: bytes_for_checksummed_words_def)
  then show ?thesis
    using assms
    by (simp add: run_word_setter_def run_command_def bytes_to_write_def length_concat_triplets)
qed

lemma run_command_unset:
  "chip_version self = None \<Longrightarrow> required_feature_set cmd = Some r \<Longrightarrow>
   run_command self cmd pb bus =
     (Inl (AssertionError ''Unsupported chip version for this command''), bus)"
  by (simp add: run_command_def has_feature_set_def)

lemma getter_unset:
  assumes "chip_version self = None" "lookup_cmd name = Inr cmd"
    "required_feature_set cmd = Some r" "parameter_length cmd = 0" "response_length cmd mod 3 = 0"
  shows "run_word_getter self name bus =
     (Inl (AssertionError ''Unsupported chip version for this command''), bus)"
  using assms by (simp add: run_word_getter_def run_command_unset)

lemma setter_unset:
  assumes "chip_version self = None" "lookup_cmd name = Inr cmd"
    "required_feature_set cmd = Some r" "response_length cmd = 0" "parameter_length cmd > 0"
    "parameter_length cmd mod 3 = 0"
  shows "run_word_setter self name ws bus =
     (Inl (if \<forall>w\<in>set ws. 0 \<le> w \<and> w \<le> 0xFFFF
           then AssertionError ''Unsupported chip version for this command''
           else StructError), bus)"
proof (cases "\<forall>w\<in>set ws. 0 \<le> w \<and> w \<le> 0xFFFF")
  case True
  then have "bytes_for_checksummed_words ws = Inr (concat (map wire_triplet ws))"
    using bytes_loop_in_range [of ws "[]"] by (simp add: bytes_for_checksummed_words_def)
  then show ?thesis using assms True by (simp add: run_word_setter_def run_command_unset)
next
  case False
  then have "bytes_for_checksummed_words ws = Inl StructError"
    using bytes_loop_out_of_range [of ws "[]"] by (simp add: bytes_for_checksummed_words_def)
  then show ?thesis using assms False by (simp add: run_word_setter_def)
qed

text \<open>
  C4. Capability gating: for every command whose \<open>required_feature_set\<close> is set, when the
  chip version of the session is not equal to the required value masked with
  \<open>_SGP30_FEATURE_SET_BITMASK\<close> (bits 5 to 7), \<open>_run_command\<close> fails with the assertion
  error \<open>'Unsupported chip version for this command'\<close> (the driver's error for an
  unsupported capability) and the bus is as it was: nothing has been written.
\<close>

theorem unsupported_feature_set_writes_nothing:
  assumes "required_feature_set cmd = Some r"
    and "chip_version self \<noteq> Some (r AND SGP30_FEATURE_SET_BITMASK)"
  shows "run_command self cmd param_bytes bus =
      (Inl (AssertionError ''Unsupported chip version for this command''), bus) \<and>
    (\<forall>n. bit SGP30_FEATURE_SET_BITMASK n = (5 \<le> n \<and> n \<le> 7))"
  using assms by (simp add: run_command_def has_feature_set_def feature_set_bitmask_bits)

theorem unsupported_feature_set_writes_nothing_witness:
  "run_command
     \<lparr>i2c_bus_number = 1, i2c_address = 0x58, raw_feature_set = Some 0x40,
      chip_version = Some 0x40, serial_number = None\<rparr>
     (SGP30Command [0x20, 0x08] (Some 0x20) 0 6 12) None
     \<lparr>fd = Some 1, calls = [], replies = [[0, 0, 0x81, 0, 0, 0x81]]\<rparr> =
   (Inl (AssertionError ''Unsupported chip version for this command''),
    \<lparr>fd = Some 1, calls = [], replies = [[0, 0, 0x81, 0, 0, 0x81]]\<rparr>)"
proof -
  have "(0x40::int) \<noteq> 0x20 AND SGP30_FEATURE_SET_BITMASK"
    by (simp add: SGP30_FEATURE_SET_BITMASK_def)
  then show ?thesis
    using unsupported_feature_set_writes_nothing
      [of "SGP30Command [0x20, 0x08] (Some 0x20) 0 6 12" "0x20"
        "\<lparr>i2c_bus_number = 1, i2c_address = 0x58, raw_feature_set = Some 0x40,
          chip_version = Some 0x40, serial_number = None\<rparr>"]
    by simp
qed

text \<open>
  C5, as the specification states it, has \<open>_run_command\<close> reject every parameter list
  whose length differs from the command's. The driver checks the length only under
  \<open>if cmd.parameter_length > 0\<close>: \<open>init_air_quality\<close> takes no parameters, and called
  with the three bytes of one word it writes its opcode to the bus and returns.
\<close>

theorem surplus_parameters_are_written:
  "run_command
     \<lparr>i2c_bus_number = 1, i2c_address = 0x58, raw_feature_set = Some 0x20,
      chip_version = Some 0x20, serial_number = None\<rparr>
     (SGP30Command [0x20, 0x03] (Some 0x20) 0 0 10) (Some [0, 0, 0x81])
     \<lparr>fd = Some 1, calls = [], replies = []\<rparr> =
   (Inr None, \<lparr>fd = Some 1, calls = [Write_block 0x58 0x20 [0x03]], replies = []\<rparr>)"
  by (simp add: run_command_def has_feature_set_def SGP30_FEATURE_SET_BITMASK_def
      bytes_to_write_def write_bytes_def write_i2c_block_data_def)

text \<open>
  C5, amended. For every command with \<open>parameter_length > 0\<close> whose required feature set
  the session has, \<open>_run_command\<close> with parameter bytes whose count differs from
  \<open>parameter_length\<close> fails with the assertion error
  \<open>'Invalid number of parameter bytes for command'\<close> (the driver's error for a wrong
  argument count), and the bus is as it was. So does \<open>_run_word_setter\<close> with words in
  \<open>0..65535\<close> whose count is not a third of \<open>parameter_length\<close>. For a command with
  \<open>parameter_length\<close> 0 no count is checked: the bytes to write are the opcode alone.
\<close>

theorem wrong_parameter_length_writes_nothing:
  "(parameter_length cmd > 0 \<and> has_feature_set self (required_feature_set cmd) \<and>
    int (length pb) \<noteq> parameter_length cmd \<longrightarrow>
      run_command self cmd (Some pb) bus =
        (Inl (AssertionError ''Invalid number of parameter bytes for command''), bus)) \<and>
   (lookup_cmd name = Inr cmd \<and> response_length cmd = 0 \<and> parameter_length cmd > 0 \<and>
    parameter_length cmd mod 3 = 0 \<and> has_feature_set self (required_feature_set cmd) \<and>
    (\<forall>w\<in>set ws. 0 \<le> w \<and> w \<le> 0xFFFF) \<and> 3 * int (length ws) \<noteq> parameter_length cmd \<longrightarrow>
      run_word_setter self name ws bus =
        (Inl (AssertionError ''Invalid number of parameter bytes for command''), bus)) \<and>
   (\<not> parameter_length cmd > 0 \<longrightarrow> bytes_to_write cmd param_bytes = Inr (opcode_bytes cmd))"
proof (intro conjI impI)
  assume "parameter_length cmd > 0 \<and> has_feature_set self (required_feature_set cmd) \<and>
    int (length pb) \<noteq> parameter_length cmd"
  then show "run_command self cmd (Some pb) bus =
        (Inl (AssertionError ''Invalid number of parameter bytes for command''), bus)"
    by (simp add: run_command_def bytes_to_write_def)
next
  assume "lookup_cmd name = Inr cmd \<and> response_length cmd = 0 \<and> parameter_length cmd > 0 \<and>
    parameter_length cmd mod 3 = 0 \<and> has_feature_set self (required_feature_set cmd) \<and>
    (\<forall>w\<in>set ws. 0 \<le> w \<and> w \<le> 0xFFFF) \<and> 3 * int (length ws) \<noteq> parameter_length cmd"
  then show "run_word_setter self name ws bus =
        (Inl (AssertionError ''Invalid number of parameter bytes for command''), bus)"
    by (elim conjE) (rule setter_wrong_count [of name cmd self ws bus], assumption+)
next
  assume "\<not> parameter_length cmd > 0"
  then show "bytes_to_write cmd param_bytes = Inr (opcode_bytes cmd)"
    by (simp add: bytes_to_write_def)
qed

theorem wrong_parameter_length_writes_nothing_witness:
  "run_command
     \<lparr>i2c_bus_number = 1, i2c_address = 0x58, raw_feature_set = Some 0x20,
      chip_version = Some 0x20, serial_number = None\<rparr>
     (SGP30Command [0x20, 0x1e] (Some 0x20) 6 0 10) (Some [0, 0, 0x81])
     \<lparr>fd = Some 1, calls = [], replies = []\<rparr> =
   (Inl (AssertionError ''Invalid number of parameter bytes for command''),
    \<lparr>fd = Some 1, calls = [], replies = []\<rparr>) \<and>
   run_word_setter
     \<lparr>i2c_bus_number = 1, i2c_address = 0x58, raw_feature_set = Some 0x20,
      chip_version = Some 0x20, serial_number = None\<rparr>
     ''set_baseline'' [1, 2, 3]
     \<lparr>fd = Some 1, calls = [], replies = []\<rparr> =
   (Inl (AssertionError ''Invalid number of parameter bytes for command''),
    \<lparr>fd = Some 1, calls = [], replies = []\<rparr>) \<and>
   bytes_to_write (SGP30Command [0x20, 0x03] (Some 0x20) 0 0 10) (Some [0, 0, 0x81]) =
     Inr [0x20, 0x03]"
proof -
  let ?s = "\<lparr>i2c_bus_number = 1, i2c_address = 0x58, raw_feature_set = Some 0x20,
      chip_version = Some 0x20, serial_number = None\<rparr>"
  let ?b = "\<lparr>fd = Some 1, calls = [], replies = []\<rparr>"
  let ?c = "SGP30Command [0x20, 0x1e] (Some 0x20) 6 0 10"
  have f: "has_feature_set ?s (required_feature_set ?c)"
    by (simp add: has_feature_set_def SGP30_FEATURE_SET_BITMASK_def)
  have l: "lookup_cmd ''set_baseline'' = Inr ?c" by (rule lookup_set_baseline)
  have a: "run_command ?s ?c (Some [0, 0, 0x81]) ?b =
      (Inl (AssertionError ''Invalid number of parameter bytes for command''), ?b)"
    using wrong_parameter_length_writes_nothing [of ?c ?s "[0, 0, 0x81]" ?b] f by simp
  have b: "run_word_setter ?s ''set_baseline'' [1, 2, 3] ?b =
      (Inl (AssertionError ''Invalid number of parameter bytes for command''), ?b)"
    using wrong_parameter_length_writes_nothing [of ?c ?s _ ?b "''set_baseline''" "[1, 2, 3]"] f l
    by simp
  have c: "bytes_to_write (SGP30Command [0x20, 0x03] (Some 0x20) 0 0 10) (Some [0, 0, 0x81]) =
     Inr [0x20, 0x03]"
    using wrong_parameter_length_writes_nothing
      [of "SGP30Command [0x20, 0x03] (Some 0x20) 0 0 10" _ _ _ _ _ "Some [0, 0, 0x81]"]
    by simp
  from a b c show ?thesis by (simp only: simp_thms)
qed

text \<open>
  C6, as the specification states it, has every measurement fail with a
  \<open>NotReadyError\<close> outside the ready state. The driver keeps no such state and raises no
  such error (\<open>error\<close> lists every exception of the model): on an object that was
  never opened, \<open>measure_air_quality\<close> fails in the feature-set assertion of
  \<open>_run_command\<close>.
\<close>

theorem measure_before_open_is_assertion_error:
  "measure_air_quality
     (fst (SGP30_init 1 0x58 \<lparr>fd = None, calls = [], replies = []\<rparr>))
     (snd (SGP30_init 1 0x58 \<lparr>fd = None, calls = [], replies = []\<rparr>)) =
   (Inl (AssertionError ''Unsupported chip version for this command''),
    \<lparr>fd = None, calls = [], replies = []\<rparr>)"
  by (simp add: measure_air_quality_def SGP30_init_def getter_unset [OF _ lookup_measure_air_quality])

text \<open>
  C6, amended. On a session whose \<open>chip_version\<close> is unset, as \<open>__init__\<close> leaves it
  until \<open>open()\<close> has read the feature set, every measurement method fails and the bus is
  as it was: \<open>measure_air_quality\<close>, \<open>get_baseline\<close> and \<open>measure_raw_signals\<close> with the
  assertion error \<open>'Unsupported chip version for this command'\<close>, \<open>set_baseline\<close> and
  \<open>set_humidity\<close> with the same error, or with \<open>struct.error\<close> when an argument is not
  in \<open>0..65535\<close>.
\<close>

theorem measurements_fail_before_open:
  assumes "chip_version self = None"
  shows "measure_air_quality self bus =
      (Inl (AssertionError ''Unsupported chip version for this command''), bus) \<and>
    get_baseline self bus =
      (Inl (AssertionError ''Unsupported chip version for this command''), bus) \<and>
    measure_raw_signals self bus =
      (Inl (AssertionError ''Unsupported chip version for this command''), bus) \<and>
    set_baseline self co2_baseline voc_baseline bus =
      (Inl (if 0 \<le> co2_baseline \<and> co2_baseline \<le> 0xFFFF \<and>
               0 \<le> voc_baseline \<and> voc_baseline \<le> 0xFFFF
            then AssertionError ''Unsupported chip version for this command''
            else StructError), bus) \<and>
    set_humidity self humidity bus =
      (Inl (if 0 \<le> humidity \<and> humidity \<le> 0xFFFF
            then AssertionError ''Unsupported chip version for this command''
            else StructError), bus) \<and>
    chip_version (fst (SGP30_init bus_number address bus0)) = None"
proof -
  have a: "measure_air_quality self bus =
      (Inl (AssertionError ''Unsupported chip version for this command''), bus)"
    using assms by (simp add: measure_air_quality_def getter_unset [OF _ lookup_measure_air_quality])
  have b: "get_baseline self bus =
      (Inl (AssertionError ''Unsupported chip version for this command''), bus)"
    using assms by (simp add: get_baseline_def getter_unset [OF _ lookup_get_baseline])
  have c: "measure_raw_signals self bus =
      (Inl (AssertionError ''Unsupported chip version for this command''), bus)"
    using assms by (simp add: measure_raw_signals_def getter_unset [OF _ lookup_measure_raw_signals])
  have d: "set_baseline self co2_baseline voc_baseline bus =
      (Inl (if 0 \<le> co2_baseline \<and> co2_baseline \<le> 0xFFFF \<and>
               0 \<le> voc_baseline \<and> voc_baseline \<le> 0xFFFF
            then AssertionError ''Unsupported chip version for this command''
            else StructError), bus)"
    using assms by (simp add: set_baseline_def setter_unset [OF _ lookup_set_baseline])
  have e: "set_humidity self humidity bus =
      (Inl (if 0 \<le> humidity \<and> humidity \<le> 0xFFFF
            then AssertionError ''Unsupported chip version for this command''
            else StructError), bus)"
    using assms by (simp add: set_humidity_def setter_unset [OF _ lookup_set_humidity])
  have f: "chip_version (fst (SGP30_init bus_number address bus0)) = None"
    by (simp add: SGP30_init_def)
  from a b c d e f show ?thesis by (simp only: simp_thms)
qed


theorem measurements_fail_before_open_witness:
  "measure_air_quality (fst (SGP30_init 1 0x58 \<lparr>fd = Some 1, calls = [], replies = []\<rparr>))
      \<lparr>fd = Some 1, calls = [], replies = [[0, 0, 0x81, 0, 0, 0x81]]\<rparr> =
    (Inl (AssertionError ''Unsupported chip version for this command''),
     \<lparr>fd = Some 1, calls = [], replies = [[0, 0, 0x81, 0, 0, 0x81]]\<rparr>) \<and>
   set_baseline (fst (SGP30_init 1 0x58 \<lparr>fd = Some 1, calls = [], replies = []\<rparr>)) 1 0x10000
      \<lparr>fd = Some 1, calls = [], replies = []\<rparr> =
    (Inl StructError, \<lparr>fd = Some 1, calls = [], replies = []\<rparr>)"
proof -
  let ?s = "fst (SGP30_init 1 0x58 \<lparr>fd = Some 1, calls = [], replies = []\<rparr>)"
  have h: "chip_version ?s = None" by (simp add: SGP30_init_def)
  show ?thesis
    using measurements_fail_before_open [OF h,
        of "\<lparr>fd = Some 1, calls = [], replies = [[0, 0, 0x81, 0, 0, 0x81]]\<rparr>"]
      measurements_fail_before_open [OF h, of "\<lparr>fd = Some 1, calls = [], replies = []\<rparr>" 1 "0x10000"]
    by simp
qed

text \<open>
  C7. The command table holds exactly the eight commands of the specification, under
  distinct names, with the tabulated opcodes (as two bytes), a required feature set for
  the last six only, the tabulated word counts of parameters and response (the table
  stores byte lengths, three bytes for each word), and the tabulated response times; no
  entry has both parameters and a response.
\<close>

theorem command_table:
  "map (\<lambda>(name, cmd). (name, opcode_bytes cmd, required_feature_set cmd \<noteq> None,
          parameter_length cmd div 3, response_length cmd div 3, response_time_ms cmd))
     SGP30_CMDS =
     [(''get_serial_number'', [0x36, 0x82], False, 0, 3, 1),
      (''get_feature_set_version'', [0x20, 0x2f], False, 0, 1, 2),
      (''init_air_quality'', [0x20, 0x03], True, 0, 0, 10),
      (''measure_air_quality'', [0x20, 0x08], True, 0, 2, 12),
      (''get_baseline'', [0x20, 0x15], True, 0, 2, 10),
      (''set_baseline'', [0x20, 0x1e], True, 2, 0, 10),
      (''set_humidity'', [0x20, 0x61], True, 1, 0, 10),
      (''measure_raw_signals'', [0x20, 0x50], True, 0, 2, 25)] \<and>
   distinct (map fst SGP30_CMDS) \<and>
   list_all (\<lambda>(name, cmd). parameter_length cmd mod 3 = 0 \<and> response_length cmd mod 3 = 0 \<and>
       (parameter_length cmd = 0 \<or> response_length cmd = 0)) SGP30_CMDS"
  by (simp add: SGP30_CMDS_def)

text \<open>
  C9. \<open>is_probably_valid\<close> is false exactly for the pair \<open>co2_ppm = 400\<close>,
  \<open>voc_ppb = 0\<close>, and true for every other pair of integers; it is false for
  \<open>(400, 0)\<close> and true for \<open>(450, 12)\<close>.
\<close>

theorem is_probably_valid_iff:
  "is_probably_valid (AirQuality co2 voc) = (\<not> (co2 = 400 \<and> voc = 0)) \<and>
   \<not> is_probably_valid (AirQuality 400 0) \<and> is_probably_valid (AirQuality 450 12)"
  by (simp add: is_probably_valid_def)

theorem is_probably_valid_iff_witness:
  "is_probably_valid (AirQuality 400 1) \<and> is_probably_valid (AirQuality 0 0) \<and>
   \<not> is_probably_valid (AirQuality 400 0)"
  using is_probably_valid_iff [of 400 1] is_probably_valid_iff [of 0 0] by simp


end
